theory Spec2Isabelle
  imports Main "HOL-Library.AList"
begin

section \<open>Runtime values\<close>

text \<open>
  The validator is dynamically typed: the input, the schema and every rule in it are
  ordinary runtime values that the code probes with \<open>typeof\<close>, \<open>instanceof\<close>, \<open>in\<close>
  and \<open>Array.isArray\<close>. They are modelled by one datatype. Objects, arrays and
  functions carry a reference, which is what \<open>===\<close> compares.
  \<^item> \<open>VObj r ps\<close> is an ordinary object (prototype \<open>Object.prototype\<close>) whose own
    properties are the data properties \<open>ps\<close>, all enumerable, in enumeration order
    (keys distinct in a well-formed object). A key \<open>__proto__\<close> in \<open>ps\<close> is an own
    property of that name, as \<open>JSON.parse\<close> creates it.
  \<^item> \<open>VArr r es\<close> is a dense array with no other properties than its indices and its
    \<open>length\<close>.
  \<^item> \<open>VFun n l nm pr\<close> is the function with reference \<open>n\<close>; it owns \<open>length\<close> (\<open>l\<close>) and
    \<open>name\<close> (\<open>nm\<close>) and, when \<open>pr\<close> is given (an ordinary function, not an arrow
    function), \<open>prototype\<close> with the value \<open>pr\<close>; none of them is enumerable, and the
    function has no property of its own besides them.
  \<^item> Finite numbers are abstracted to integers, since the validator only observes
    their type tag and their identity; \<open>NaN\<close> is kept apart because the comparisons
    treat it specially.

  The validator reads a property of the input only together with an own-property
  test, so a property that the input merely inherits never decides an answer; the
  model reads \<open>undefined\<close> for it.
\<close>

datatype jsval =
    VUndefined
  | VNull
  | VBool bool
  | VNum int
  | VNaN
  | VStr string
  | VSymbol nat
  | VBigInt int
  | VFun nat int string "jsval option"
  | VObj nat "(string \<times> jsval) list"
  | VArr nat "jsval list"

text \<open>A call either returns or throws; a thrown exception is the left summand.\<close>

datatype error = TypeError | Thrown nat

text \<open>
  \<open>ValidationResult\<close>: a boolean, or a result object. The loop starts from the object
  literal \<open>{}\<close> and assigns into it, so \<open>RTree p t\<close> lists the own properties \<open>t\<close> of the
  object and records in \<open>p\<close> whether its prototype is still \<open>Object.prototype\<close> (\<open>None\<close>)
  or was replaced by a nested result.
\<close>

datatype result = RBool bool | RTree "result option" "(string \<times> result) list"

text \<open>
  Modelled from the spec: the declaration of the predicate type \<open>Validator<T>\<close> used by
  \<open>types.d.ts\<close> is missing from the sources; the spec describes it as a unary predicate
  function taking the field's value and returning a boolean. Calling the function
  with reference \<open>n\<close> runs the \<open>n\<close>-th entry of an environment of such predicates, each
  of which may also throw.
\<close>

type_synonym fenv = "nat \<Rightarrow> jsval \<Rightarrow> error + bool"

fun typeof :: "jsval \<Rightarrow> string" where
  "typeof VUndefined = ''undefined''"
| "typeof VNull = ''object''"
| "typeof (VBool b) = ''boolean''"
| "typeof (VNum n) = ''number''"
| "typeof VNaN = ''number''"
| "typeof (VStr s) = ''string''"
| "typeof (VSymbol n) = ''symbol''"
| "typeof (VBigInt n) = ''bigint''"
| "typeof (VFun n l nm pr) = ''function''"
| "typeof (VObj r ps) = ''object''"
| "typeof (VArr r es) = ''object''"

fun isArray :: "jsval \<Rightarrow> bool" where
  "isArray (VArr r es) = True"
| "isArray v = False"

fun instanceofObject :: "jsval \<Rightarrow> bool" where
  "instanceofObject (VObj r ps) = True"
| "instanceofObject (VArr r es) = True"
| "instanceofObject (VFun n l nm pr) = True"
| "instanceofObject v = False"

fun truthy :: "jsval \<Rightarrow> bool" where
  "truthy VUndefined = False"
| "truthy VNull = False"
| "truthy (VBool b) = b"
| "truthy (VNum n) = (n \<noteq> 0)"
| "truthy VNaN = False"
| "truthy (VStr s) = (s \<noteq> [])"
| "truthy (VBigInt n) = (n \<noteq> 0)"
| "truthy v = True"

text \<open>
  What a comparison looks at: a primitive is its value, an object, array or function
  is its reference. \<open>===\<close> never holds for \<open>NaN\<close>; \<open>Array.prototype.includes\<close> compares with
  SameValueZero, for which \<open>NaN\<close> equals itself.
\<close>

fun identity :: "jsval \<Rightarrow> jsval" where
  "identity (VObj r ps) = VObj r []"
| "identity (VArr r es) = VArr r []"
| "identity (VFun n l nm pr) = VFun n 0 [] None"
| "identity v = v"

definition strict_equals :: "jsval \<Rightarrow> jsval \<Rightarrow> bool" where
  "strict_equals a b = (a \<noteq> VNaN \<and> b \<noteq> VNaN \<and> identity a = identity b)"

definition sameValueZero :: "jsval \<Rightarrow> jsval \<Rightarrow> bool" where
  "sameValueZero a b = (identity a = identity b)"

section \<open>Properties\<close>

text \<open>The canonical decimal string of an array index.\<close>

definition digit :: "nat \<Rightarrow> char" where
  "digit d = char_of (48 + d)"

fun index_key :: "nat \<Rightarrow> string" where
  "index_key n = (if n < 10 then [digit n] else index_key (n div 10) @ [digit (n mod 10)])"

declare index_key.simps [simp del]

definition indexed :: "'a list \<Rightarrow> (string \<times> 'a) list" where
  "indexed xs = zip (map index_key [0..<length xs]) xs"

text \<open>
  The properties \<open>for ... in\<close> and \<open>Object.values\<close> enumerate, in order, and the own
  properties \<open>hasOwnProperty\<close> and a property read see: the \<open>length\<close> of an array or
  string and the \<open>length\<close>, \<open>name\<close> and \<open>prototype\<close> of a function are own but not
  enumerable.
\<close>

fun enumerable_props :: "jsval \<Rightarrow> (string \<times> jsval) list" where
  "enumerable_props (VObj r ps) = ps"
| "enumerable_props (VArr r es) = indexed es"
| "enumerable_props (VStr s) = indexed (map (\<lambda>c. VStr [c]) s)"
| "enumerable_props v = []"

fun own_props :: "jsval \<Rightarrow> (string \<times> jsval) list" where
  "own_props (VArr r es) = indexed es @ [(''length'', VNum (int (length es)))]"
| "own_props (VStr s) = indexed (map (\<lambda>c. VStr [c]) s) @ [(''length'', VNum (int (length s)))]"
| "own_props (VFun n l nm pr) =
     [(''length'', VNum l), (''name'', VStr nm)]
     @ (case pr of None \<Rightarrow> [] | Some p \<Rightarrow> [(''prototype'', p)])"
| "own_props v = enumerable_props v"

definition hasOwnProperty :: "jsval \<Rightarrow> string \<Rightarrow> bool" where
  "hasOwnProperty obj k = (map_of (own_props obj) k \<noteq> None)"

text \<open>\<open>obj[k]\<close>: reading a property of \<open>undefined\<close> or \<open>null\<close> throws.\<close>

definition get_prop :: "jsval \<Rightarrow> string \<Rightarrow> error + jsval" where
  "get_prop obj k =
     (if obj = VUndefined \<or> obj = VNull then Inl TypeError
      else Inr (case map_of (own_props obj) k of None \<Rightarrow> VUndefined | Some v \<Rightarrow> v))"

text \<open>\<open>k in obj\<close>: throws unless the right operand is an object.\<close>

definition in_operator :: "string \<Rightarrow> jsval \<Rightarrow> error + bool" where
  "in_operator k obj = (if instanceofObject obj then Inr (hasOwnProperty obj k) else Inl TypeError)"

definition object_values :: "jsval \<Rightarrow> error + jsval list" where
  "object_values v =
     (if v = VUndefined \<or> v = VNull then Inl TypeError else Inr (map snd (enumerable_props v)))"

definition array_includes :: "jsval list \<Rightarrow> jsval \<Rightarrow> bool" where
  "array_includes xs v = (\<exists>x \<in> set xs. sameValueZero x v)"

text \<open>Calling a value: anything but a function throws a \<open>TypeError\<close>.\<close>

definition call_function :: "fenv \<Rightarrow> jsval \<Rightarrow> jsval \<Rightarrow> error + bool" where
  "call_function \<Phi> f v = (case f of VFun n l nm pr \<Rightarrow> \<Phi> n v | _ \<Rightarrow> Inl TypeError)"

text \<open>
  \<open>Array.prototype.every\<close>: the callback runs on the elements in order, the first
  falsy answer ends the loop with \<open>false\<close>, and an exception of the callback escapes.
\<close>

fun every :: "('a \<Rightarrow> error + bool) \<Rightarrow> 'a list \<Rightarrow> error + bool" where
  "every f [] = Inr True"
| "every f (x # xs) =
     (case f x of Inl e \<Rightarrow> Inl e | Inr b \<Rightarrow> if b then every f xs else Inr False)"

section \<open>The checkers of the Validator class\<close>

definition applyDefaultValidator :: "jsval \<Rightarrow> jsval \<Rightarrow> bool" where
  "applyDefaultValidator type value =
     (if type = VStr ''string'' then typeof value = ''string''
      else if type = VStr ''number'' then typeof value = ''number''
      else if type = VStr ''boolean'' then typeof value = ''boolean''
      else if type = VStr ''object'' then typeof value = ''object'' \<and> \<not> strict_equals value VNull
      else if type = VStr ''symbol'' then typeof value = ''symbol''
      else if type = VStr ''bigint'' then typeof value = ''bigint''
      else if type = VStr ''undefined'' then typeof value = ''undefined''
      else if type = VStr ''null'' then strict_equals value VNull
      else False)"

definition validateEnum :: "jsval \<Rightarrow> jsval \<Rightarrow> error + bool" where
  "validateEnum value enumType =
     (case object_values enumType of Inl e \<Rightarrow> Inl e | Inr vs \<Rightarrow> Inr (array_includes vs value))"

definition validateArray :: "fenv \<Rightarrow> jsval \<Rightarrow> jsval \<Rightarrow> error + bool" where
  "validateArray \<Phi> value itemType =
     (case value of
        VArr r items \<Rightarrow>
          if typeof itemType = ''string''
          then every (\<lambda>item. Inr (applyDefaultValidator itemType item)) items
          else (case in_operator ''enum'' itemType of
                  Inl e \<Rightarrow> Inl e
                | Inr has_enum \<Rightarrow>
                    if has_enum
                    then every (\<lambda>item. case get_prop itemType ''enum'' of
                                          Inl e \<Rightarrow> Inl e
                                        | Inr enumType \<Rightarrow> validateEnum item enumType) items
                    else every (\<lambda>item. call_function \<Phi> itemType item) items)
      | _ \<Rightarrow> Inr False)"

text \<open>The callback that \<open>validateCompositeValidator\<close> hands to \<open>every\<close>.\<close>

definition compositeCallback :: "fenv \<Rightarrow> jsval \<Rightarrow> jsval \<Rightarrow> error + bool" where
  "compositeCallback \<Phi> value validator =
     (if typeof validator = ''string'' then Inr (applyDefaultValidator validator value)
      else if typeof validator = ''function'' then call_function \<Phi> validator value
      else if truthy validator \<and> typeof validator = ''object'' then
        (if in_operator ''enum'' validator = Inr True then
           (case get_prop validator ''enum'' of
              Inl e \<Rightarrow> Inl e
            | Inr enumType \<Rightarrow> validateEnum value enumType)
         else if in_operator ''itemType'' validator = Inr True then
           (case get_prop validator ''itemType'' of
              Inl e \<Rightarrow> Inl e
            | Inr itemType \<Rightarrow> validateArray \<Phi> value itemType)
         else Inr False)
      else Inr False)"

definition validatorArray :: "jsval \<Rightarrow> jsval list" where
  "validatorArray validators = (case validators of VArr r vs \<Rightarrow> vs | _ \<Rightarrow> [validators])"

definition validateCompositeValidator :: "fenv \<Rightarrow> jsval \<Rightarrow> jsval \<Rightarrow> error + bool" where
  "validateCompositeValidator \<Phi> value validators =
     every (compositeCallback \<Phi> value) (validatorArray validators)"

section \<open>The dispatcher\<close>

text \<open>
  The assignment \<open>result[key] = v\<close> on the result object, which starts as \<open>{}\<close>. Under
  every key but \<open>__proto__\<close> it creates or overwrites an own property. Under the key
  \<open>__proto__\<close> it runs the setter inherited from \<open>Object.prototype\<close>: no own property
  is created; a boolean is ignored and a nested result becomes the prototype of the
  result object.
\<close>

type_synonym result_object = "result option \<times> (string \<times> result) list"

definition assign_result :: "string \<Rightarrow> result \<Rightarrow> result_object \<Rightarrow> result_object" where
  "assign_result key v res =
     (if key = ''__proto__''
      then (case v of RBool b \<Rightarrow> res | RTree p t \<Rightarrow> (Some v, snd res))
      else (fst res, AList.update key v (snd res)))"

text \<open>
  The \<open>for (const key in schema)\<close> loop: the body runs on every enumerable property of
  the schema in order and its answer is assigned under the key in the result being
  built; an exception thrown by the body ends the loop.
\<close>

fun forIn :: "(string \<Rightarrow> jsval \<Rightarrow> error + result) \<Rightarrow> (string \<times> jsval) list \<Rightarrow>
    result_object \<Rightarrow> error + result_object" where
  "forIn body [] res = Inr res"
| "forIn body ((key, v) # rest) res =
     (case body key v of
        Inl e \<Rightarrow> Inl e
      | Inr r \<Rightarrow> forIn body rest (assign_result key r res))"

lemma forIn_cong [fundef_cong]:
  "ps = qs \<Longrightarrow> res = res' \<Longrightarrow> (\<And>k v. (k, v) \<in> set qs \<Longrightarrow> f k v = g k v)
   \<Longrightarrow> forIn f ps res = forIn g qs res'"
proof (induction qs arbitrary: ps res res')
  case Nil
  then show ?case by simp
next
  case (Cons q qs)
  obtain k v where q: "q = (k, v)" by (cases q)
  have "forIn f qs r = forIn g qs r" for r
    using Cons.IH [of qs r r] Cons.prems(3) by simp
  moreover have "f k v = g k v" using Cons.prems(3) q by simp
  ultimately show ?case using Cons.prems(1,2) q by (simp split: sum.splits)
qed

definition boolean_result :: "error + bool \<Rightarrow> error + result" where
  "boolean_result x = (case x of Inl e \<Rightarrow> Inl e | Inr b \<Rightarrow> Inr (RBool b))"

definition tree_result :: "error + result_object \<Rightarrow> error + result" where
  "tree_result x = (case x of Inl e \<Rightarrow> Inl e | Inr res \<Rightarrow> Inr (RTree (fst res) (snd res)))"

text \<open>A rule of type \<open>object\<close> stored in a schema is smaller than the schema.\<close>

lemma set_indexed: "(k, v) \<in> set (indexed xs) \<Longrightarrow> v \<in> set xs"
  unfolding indexed_def by (rule set_zip_rightD)

lemma size_enumerable_props:
  assumes "(k, v) \<in> set (enumerable_props s)" and "typeof v = ''object''"
  shows "size v < size s"
proof (cases s)
  case (VObj r ps)
  with assms(1) have "(k, v) \<in> set ps" by simp
  then have "size v < Suc (size_list (size_prod (\<lambda>_. 0) size) ps)"
    by (induction ps) auto
  with VObj show ?thesis by simp
next
  case (VArr r es)
  with assms(1) have "v \<in> set es" by (auto dest: set_indexed)
  then have "size v < Suc (size_list size es)"
    by (induction es) auto
  with VArr show ?thesis by simp
next
  case (VStr str)
  with assms(1) have "v \<in> set (map (\<lambda>c. VStr [c]) str)" by (auto dest: set_indexed)
  with assms(2) show ?thesis by auto
qed (insert assms(1), simp_all)

text \<open>
  \<open>validateHelper\<close>, with the body of its loop as \<open>validateKey\<close>: the answer stored
  for one key of the schema.
\<close>

function validateKey :: "fenv \<Rightarrow> jsval \<Rightarrow> string \<Rightarrow> jsval \<Rightarrow> error + result"
  and validateHelper :: "fenv \<Rightarrow> jsval \<Rightarrow> jsval \<Rightarrow> error + result"
where
  "validateKey \<Phi> input key validatorOrType =
     (case get_prop input key of
        Inl e \<Rightarrow> Inl e
      | Inr value \<Rightarrow>
          if validatorOrType = VStr ''undefined'' then
            Inr (RBool (\<not> hasOwnProperty input key \<or> strict_equals value VUndefined))
          else if validatorOrType = VStr ''null'' then
            Inr (RBool (strict_equals value VNull))
          else if \<not> hasOwnProperty input key then Inr (RBool False)
          else if typeof validatorOrType = ''function'' then
            boolean_result (call_function \<Phi> validatorOrType value)
          else if typeof validatorOrType = ''string'' then
            Inr (RBool (applyDefaultValidator validatorOrType value))
          else if instanceofObject validatorOrType
                  \<and> in_operator ''enum'' validatorOrType = Inr True then
            (case get_prop validatorOrType ''enum'' of
               Inl e \<Rightarrow> Inl e
             | Inr enumType \<Rightarrow> boolean_result (validateEnum value enumType))
          else if instanceofObject validatorOrType
                  \<and> in_operator ''itemType'' validatorOrType = Inr True then
            (case get_prop validatorOrType ''itemType'' of
               Inl e \<Rightarrow> Inl e
             | Inr itemType \<Rightarrow> boolean_result (validateArray \<Phi> value itemType))
          else if typeof value = ''object'' \<and> validatorOrType \<noteq> VUndefined
                  \<and> value \<noteq> VNull \<and> typeof validatorOrType = ''object'' then
            validateHelper \<Phi> value validatorOrType
          else if isArray validatorOrType then
            boolean_result (validateCompositeValidator \<Phi> value validatorOrType)
          else Inr (RBool False))"
| "validateHelper \<Phi> input schema =
     tree_result (forIn (\<lambda>key validatorOrType. validateKey \<Phi> input key validatorOrType)
                        (enumerable_props schema) (None, []))"
  by pat_completeness auto

termination
proof (relation "measure (\<lambda>x. case x of
          Inl (\<Phi>, input, key, rule) \<Rightarrow> (if typeof rule = ''object'' then 2 * size rule + 2 else 0)
        | Inr (\<Phi>, input, schema) \<Rightarrow> 2 * size schema + 1)", goal_cases)
  case 1
  show ?case by simp
next
  case (2 \<Phi> inp k rule v)
  then show ?case by simp
next
  case (3 \<Phi> inp s k rule)
  then show ?case
    using size_enumerable_props [of k rule s] by auto
qed

declare validateKey.simps [simp del] validateHelper.simps [simp del]

text \<open>The class: a validator holds its schema; \<open>validate\<close> is the public entry point.\<close>

record Validator =
  schema :: jsval

definition new_Validator :: "jsval \<Rightarrow> Validator" where
  "new_Validator s = \<lparr>schema = s\<rparr>"

definition validate :: "fenv \<Rightarrow> Validator \<Rightarrow> jsval \<Rightarrow> error + result" where
  "validate \<Phi> this input = validateHelper \<Phi> input (schema this)"


section \<open>The schemas and inputs of the test suite\<close>

text \<open>The first validator of the tests and the input of its second test.\<close>

definition testSchema :: jsval where
  "testSchema = VObj 1 [(''name'', VStr ''string''), (''age'', VStr ''number''),
     (''email'', VStr ''string''), (''other'', VStr ''undefined''),
     (''sx'', VObj 2 [(''itemType'', VStr ''string'')])]"

definition invalidInput :: jsval where
  "invalidInput = VObj 3 [(''name'', VStr ''John Doe''), (''age'', VStr ''30''),
     (''email'', VStr ''john.doe@example.com'')]"

text \<open>
  Two predicate environments for concrete runs: one whose predicates all throw, so
  that a normal return shows that no predicate was called, and one whose predicates
  all accept exactly the positive numbers (\<open>typeof v === "number" && v > 0\<close>).
\<close>

definition throwing_env :: fenv where
  "throwing_env n v = Inl (Thrown n)"

definition isPositive_env :: fenv where
  "isPositive_env n v = (case v of VNum k \<Rightarrow> Inr (0 < k) | _ \<Rightarrow> Inr False)"

section \<open>Facts about the loops\<close>

lemma validateHelper_loop:
  "validateHelper \<Phi> input S =
     tree_result (forIn (validateKey \<Phi> input) (enumerable_props S) (None, []))"
  by (simp add: validateHelper.simps)

lemma snd_assign_result:
  "snd (assign_result k v res) =
     (if k = ''__proto__'' then snd res else AList.update k v (snd res))"
  by (cases v) (simp_all add: assign_result_def)


lemma forIn_keys:
  "forIn body ps res = Inr res' \<Longrightarrow>
   set (map fst (snd res')) = set (map fst (snd res)) \<union> (set (map fst ps) - {''__proto__''})"
proof (induction ps arbitrary: res)
  case Nil
  then show ?case by simp
next
  case (Cons p ps)
  obtain k v where p: "p = (k, v)" by (cases p)
  from Cons.prems p obtain r where r: "body k v = Inr r"
    and rest: "forIn body ps (assign_result k r res) = Inr res'"
    by (auto split: sum.splits)
  have "set (map fst (snd (assign_result k r res))) =
      (if k = ''__proto__'' then set (map fst (snd res)) else insert k (set (map fst (snd res))))"
    by (simp add: snd_assign_result dom_update)
  with Cons.IH [OF rest] p show ?case by auto
qed

lemma forIn_untouched:
  "forIn body ps res = Inr res' \<Longrightarrow> k \<notin> set (map fst ps) \<Longrightarrow>
   map_of (snd res') k = map_of (snd res) k"
proof (induction ps arbitrary: res)
  case Nil
  then show ?case by simp
next
  case (Cons p ps)
  obtain k' v where p: "p = (k', v)" by (cases p)
  from Cons.prems p obtain r where rest: "forIn body ps (assign_result k' r res) = Inr res'"
    by (auto split: sum.splits)
  from Cons.prems(2) p have "k \<noteq> k'" "k \<notin> set (map fst ps)" by auto
  with Cons.IH [OF rest] show ?case by (simp add: snd_assign_result update_conv')
qed

lemma forIn_lookup:
  "forIn body ps res = Inr res' \<Longrightarrow> distinct (map fst ps) \<Longrightarrow> (k, v) \<in> set ps
   \<Longrightarrow> k \<noteq> ''__proto__''
   \<Longrightarrow> \<exists>r. body k v = Inr r \<and> map_of (snd res') k = Some r"
proof (induction ps arbitrary: res)
  case Nil
  then show ?case by simp
next
  case (Cons p ps)
  obtain k' v' where p: "p = (k', v')" by (cases p)
  from Cons.prems(1) p obtain r where r: "body k' v' = Inr r"
    and rest: "forIn body ps (assign_result k' r res) = Inr res'"
    by (auto split: sum.splits)
  show ?case
  proof (cases "(k, v) = (k', v')")
    case True
    from Cons.prems(2) p have "k' \<notin> set (map fst ps)" by simp
    from forIn_untouched [OF rest this] True Cons.prems(4) have "map_of (snd res') k' = Some r"
      by (simp add: snd_assign_result update_conv')
    with True r show ?thesis by auto
  next
    case False
    with Cons.prems(3) p have "(k, v) \<in> set ps" by auto
    moreover from Cons.prems(2) have "distinct (map fst ps)" by simp
    ultimately show ?thesis using Cons.IH [OF rest _ _ Cons.prems(4)] by blast
  qed
qed

lemma forIn_throws:
  "(k, v) \<in> set ps \<Longrightarrow> body k v = Inl e \<Longrightarrow> \<exists>e'. forIn body ps res = Inl e'"
proof (induction ps arbitrary: res)
  case Nil
  then show ?case by simp
next
  case (Cons p ps)
  obtain k' v' where p: "p = (k', v')" by (cases p)
  show ?case
  proof (cases "body k' v'")
    case (Inl e')
    with p show ?thesis by simp
  next
    case (Inr r)
    with Cons.prems p have "(k, v) \<in> set ps" by auto
    from Cons.IH [OF this Cons.prems(2)] Inr p show ?thesis by simp
  qed
qed

lemma validateHelper_keys:
  "validateHelper \<Phi> input S = Inr res \<Longrightarrow>
   \<exists>p t. res = RTree p t
     \<and> set (map fst t) = set (map fst (enumerable_props S)) - {''__proto__''}"
proof -
  assume "validateHelper \<Phi> input S = Inr res"
  then obtain res' where l: "forIn (validateKey \<Phi> input) (enumerable_props S) (None, []) = Inr res'"
    and r: "res = RTree (fst res') (snd res')"
    by (auto simp: validateHelper_loop tree_result_def split: sum.splits)
  from forIn_keys [OF l] r show ?thesis by simp
qed

lemma validateHelper_lookup:
  assumes "validateHelper \<Phi> input S = Inr (RTree p t)"
    and "distinct (map fst (enumerable_props S))"
    and "(k, rule) \<in> set (enumerable_props S)" and "k \<noteq> ''__proto__''"
  shows "\<exists>r. validateKey \<Phi> input k rule = Inr r \<and> map_of t k = Some r"
proof -
  from assms(1) obtain res'
    where l: "forIn (validateKey \<Phi> input) (enumerable_props S) (None, []) = Inr res'"
      and r: "t = snd res'"
    by (auto simp: validateHelper_loop tree_result_def split: sum.splits)
  from forIn_lookup [OF l assms(2,3,4)] r show ?thesis by simp
qed

lemma every_true_iff:
  "every f xs = Inr True \<longleftrightarrow> (\<forall>x \<in> set xs. f x = Inr True)"
  by (induction xs) (auto split: sum.splits)

lemma every_total:
  "(\<forall>x \<in> set xs. \<exists>b. f x = Inr b) \<Longrightarrow> every f xs = Inr (\<forall>x \<in> set xs. f x = Inr True)"
  by (induction xs) (auto split: sum.splits)

lemma every_pure:
  "every (\<lambda>x. Inr (P x)) xs = Inr (\<forall>x \<in> set xs. P x)"
  by (induction xs) auto

section \<open>Facts about one key\<close>

lemma strict_equals_undefined [simp]: "strict_equals v VUndefined \<longleftrightarrow> v = VUndefined"
  by (cases v) (simp_all add: strict_equals_def)

lemma strict_equals_null [simp]: "strict_equals v VNull \<longleftrightarrow> v = VNull"
  by (cases v) (simp_all add: strict_equals_def)

lemma own_props_Some_defined:
  "map_of (own_props input) key = Some v \<Longrightarrow> input \<noteq> VUndefined \<and> input \<noteq> VNull"
  by (cases input) auto

lemma validateKey_missing:
  assumes "rule \<noteq> VStr ''undefined''" "rule \<noteq> VStr ''null''"
    and "input \<noteq> VUndefined" "input \<noteq> VNull" "\<not> hasOwnProperty input key"
  shows "validateKey \<Phi> input key rule = Inr (RBool False)"
  using assms by (simp add: validateKey.simps get_prop_def)


lemma validateKey_nested:
  assumes "map_of (own_props input) key = Some v"
    and "map_of ps ''enum'' = None" "map_of ps ''itemType'' = None"
  shows "validateKey \<Phi> input key (VObj r ps) =
     (if typeof v = ''object'' \<and> v \<noteq> VNull then validateHelper \<Phi> v (VObj r ps)
      else Inr (RBool False))"
  using assms own_props_Some_defined [OF assms(1)]
  by (simp add: validateKey.simps get_prop_def hasOwnProperty_def in_operator_def)


text \<open>
  A function as input: it owns \<open>length\<close> and \<open>name\<close>, so the rules of these keys are
  applied to their values.
\<close>

lemma function_input_own_properties:
  "validate \<Phi> (new_Validator (VObj 1 [(''length'', VStr ''number''), (''name'', VStr ''string''),
       (''prototype'', VStr ''undefined'')]))
     (VFun 0 1 ''f'' None)
   = Inr (RTree None [(''length'', RBool True), (''name'', RBool True), (''prototype'', RBool True)])"
  by code_simp

text \<open>
  An ordinary function whose \<open>prototype\<close> property holds a plain object: the key is
  present and its value is an object, so a nested schema under it is applied.
\<close>

lemma function_input_prototype_recursed:
  "validate \<Phi> (new_Validator (VObj 1 [(''prototype'', VObj 2 [(''a'', VStr ''number'')])]))
     (VFun 0 1 ''f'' (Some (VObj 3 [(''a'', VNum 1)])))
   = Inr (RTree None [(''prototype'', RTree None [(''a'', RBool True)])])"
  by code_simp

text \<open>
  A nested result assigned under the key \<open>__proto__\<close> becomes the prototype of the
  result object.
\<close>

lemma proto_key_nested_result:
  "validate \<Phi> (new_Validator (VObj 1 [(''__proto__'', VObj 2 [(''a'', VStr ''number'')])]))
     (VObj 3 [(''__proto__'', VObj 4 [(''a'', VNum 1)])])
   = Inr (RTree (Some (RTree None [(''a'', RBool True)])) [])"
  by code_simp

text \<open>
  A schema with the own key \<open>__proto__\<close>: the answer for the key is computed, but the
  assignment leaves no own property in the result.
\<close>

lemma proto_key_not_stored:
  "validate \<Phi> (new_Validator (VObj 1 [(''__proto__'', VStr ''string''), (''a'', VStr ''string'')]))
     (VObj 2 [(''a'', VStr ''x'')])
   = Inr (RTree None [(''a'', RBool True)])"
  by code_simp

section \<open>Facts about comparisons and array indices\<close>

lemma sameValueZero_strict:
  "sameValueZero x v \<longleftrightarrow> strict_equals x v \<or> (x = VNaN \<and> v = VNaN)"
  by (cases x; cases v) (auto simp: sameValueZero_def strict_equals_def)

lemma sameValueZero_typeof: "sameValueZero x v \<Longrightarrow> typeof x = typeof v"
  by (cases x; cases v) (auto simp: sameValueZero_def)

text \<open>An index key ends in a digit, so no array has an index named like a descriptor member.\<close>

lemma index_key_last: "index_key n \<noteq> [] \<and> last (index_key n) = digit (n mod 10)"
  by (subst (1 2) index_key.simps) simp

lemma digit_of_char: "d < 10 \<Longrightarrow> of_char (digit d) = 48 + d"
  by (simp add: digit_def)

lemma index_key_not_name:
  assumes "name \<noteq> []" and "of_char (last name) \<notin> {48 ..< 58::nat}"
  shows "index_key n \<noteq> name"
proof
  assume "index_key n = name"
  with index_key_last [of n] have "last name = digit (n mod 10)" by simp
  then have "of_char (last name) = 48 + n mod 10"
    by (simp add: digit_of_char)
  with assms(2) show False by simp
qed

lemma indexed_no_name:
  assumes "name \<noteq> []" and "of_char (last name) \<notin> {48 ..< 58::nat}"
  shows "map_of (indexed xs) name = None"
proof -
  have "k \<noteq> name" if "(k, v) \<in> set (indexed xs)" for k v
  proof -
    from that have "k \<in> set (map index_key [0..<length xs])"
      unfolding indexed_def by (rule set_zip_leftD)
    then obtain n where "k = index_key n" by auto
    with index_key_not_name [OF assms, of n] show ?thesis by simp
  qed
  then have "name \<notin> fst ` set (indexed xs)" by fastforce
  then show ?thesis
    by (simp add: map_of_eq_None_iff)
qed

lemma array_in_operator:
  "in_operator ''enum'' (VArr r es) = Inr False"
  "in_operator ''itemType'' (VArr r es) = Inr False"
  by (simp_all add: in_operator_def hasOwnProperty_def map_add_def indexed_no_name)

lemma function_in_operator:
  "in_operator ''enum'' (VFun n l nm pr) = Inr False"
  by (cases pr) (simp_all add: in_operator_def hasOwnProperty_def)

section \<open>The end-to-end example\<close>

text \<open>
  Claim C1. For the schema \<open>{name: "string", age: "number", email: "string",
  other: "undefined", sx: {itemType: "string"}}\<close> and the input \<open>{name: "John Doe",
  age: "30", email: "john.doe@example.com"}\<close>, \<open>validate\<close> returns exactly
  \<open>{name: true, age: false, email: true, other: true, sx: false}\<close>, whatever the
  predicates of the environment do.
\<close>

theorem end_to_end_invalid_input:
  "validate \<Phi> (new_Validator testSchema) invalidInput =
     Inr (RTree None [(''name'', RBool True), (''age'', RBool False), (''email'', RBool True),
                      (''other'', RBool True), (''sx'', RBool False)])"
  by code_simp

section \<open>Missing keys\<close>



section \<open>The \<open>"undefined"\<close> tag\<close>



section \<open>The composite checker\<close>

text \<open>
  Claim C4. The composite checker turns its rule into a list, the rule itself when it
  is a list and the singleton of the rule otherwise, and returns \<open>true\<close> if and only
  if every rule of the list passes against the value; when no rule throws, its
  answer is exactly that conjunction. A rule of the list passes as follows: a string
  by the primitive-type checker, a function by its own answer, an object with an
  \<open>enum\<close> member by the enum checker, an object with an \<open>itemType\<close> member (and no
  \<open>enum\<close>) by the array checker; every other rule fails. For the rule
  \<open>["number", isPositive]\<close>, where \<open>isPositive\<close> accepts \<open>5\<close> and rejects \<open>-5\<close>, the
  value \<open>5\<close> gives \<open>true\<close>, the value \<open>-5\<close> gives \<open>false\<close>, and the string \<open>"5"\<close> gives
  \<open>false\<close> whatever the predicate would say.
\<close>

theorem composite_all_rules_pass:
  "(validateCompositeValidator \<Phi> v validators = Inr True
      \<longleftrightarrow> (\<forall>rule \<in> set (validatorArray validators). compositeCallback \<Phi> v rule = Inr True))
   \<and> ((\<forall>rule \<in> set (validatorArray validators). \<exists>b. compositeCallback \<Phi> v rule = Inr b)
      \<longrightarrow> validateCompositeValidator \<Phi> v validators =
           Inr (\<forall>rule \<in> set (validatorArray validators). compositeCallback \<Phi> v rule = Inr True))
   \<and> validatorArray (VArr r rules) = rules
   \<and> (\<not> isArray validators \<longrightarrow> validatorArray validators = [validators])
   \<and> (typeof tag = ''string'' \<longrightarrow>
        compositeCallback \<Phi> v tag = Inr (applyDefaultValidator tag v))
   \<and> compositeCallback \<Phi> v (VFun n l nm pr) = \<Phi> n v
   \<and> (map_of ps ''enum'' = Some enumType \<longrightarrow>
        compositeCallback \<Phi> v (VObj q ps) = validateEnum v enumType)
   \<and> (map_of ps ''enum'' = None \<and> map_of ps ''itemType'' = Some itemType \<longrightarrow>
        compositeCallback \<Phi> v (VObj q ps) = validateArray \<Phi> v itemType)
   \<and> (map_of ps ''enum'' = None \<and> map_of ps ''itemType'' = None \<longrightarrow>
        compositeCallback \<Phi> v (VObj q ps) = Inr False)
   \<and> compositeCallback \<Phi> v (VArr q rules) = Inr False
   \<and> (typeof other \<notin> {''string'', ''function'', ''object''} \<or> other = VNull \<longrightarrow>
        compositeCallback \<Phi> v other = Inr False)
   \<and> (\<Phi> n (VNum 5) = Inr True
      \<longrightarrow> validateCompositeValidator \<Phi> (VNum 5) (VArr r [VStr ''number'', VFun n l nm pr]) = Inr True)
   \<and> (\<Phi> n (VNum (- 5)) = Inr False
      \<longrightarrow> validateCompositeValidator \<Phi> (VNum (- 5)) (VArr r [VStr ''number'', VFun n l nm pr])
            = Inr False)
   \<and> validateCompositeValidator \<Phi> (VStr ''5'') (VArr r [VStr ''number'', VFun n l nm pr]) = Inr False"
proof -
  have all: "validateCompositeValidator \<Phi> v validators = Inr True
      \<longleftrightarrow> (\<forall>rule \<in> set (validatorArray validators). compositeCallback \<Phi> v rule = Inr True)"
    by (simp add: validateCompositeValidator_def every_true_iff)
  have total: "(\<forall>rule \<in> set (validatorArray validators). \<exists>b. compositeCallback \<Phi> v rule = Inr b)
      \<longrightarrow> validateCompositeValidator \<Phi> v validators =
           Inr (\<forall>rule \<in> set (validatorArray validators). compositeCallback \<Phi> v rule = Inr True)"
    by (simp add: validateCompositeValidator_def every_total)
  have list: "validatorArray (VArr r rules) = rules"
    by (simp add: validatorArray_def)
  have single: "\<not> isArray validators \<longrightarrow> validatorArray validators = [validators]"
    by (cases validators) (simp_all add: validatorArray_def)
  have tag: "typeof tag = ''string'' \<longrightarrow>
        compositeCallback \<Phi> v tag = Inr (applyDefaultValidator tag v)"
    by (simp add: compositeCallback_def)
  have pred: "compositeCallback \<Phi> v (VFun n l nm pr) = \<Phi> n v"
    by (simp add: compositeCallback_def call_function_def)
  have enum: "map_of ps ''enum'' = Some enumType \<longrightarrow>
        compositeCallback \<Phi> v (VObj q ps) = validateEnum v enumType"
    by (simp add: compositeCallback_def in_operator_def hasOwnProperty_def get_prop_def)
  have arr: "map_of ps ''enum'' = None \<and> map_of ps ''itemType'' = Some itemType \<longrightarrow>
        compositeCallback \<Phi> v (VObj q ps) = validateArray \<Phi> v itemType"
    by (simp add: compositeCallback_def in_operator_def hasOwnProperty_def get_prop_def)
  have plain: "map_of ps ''enum'' = None \<and> map_of ps ''itemType'' = None \<longrightarrow>
        compositeCallback \<Phi> v (VObj q ps) = Inr False"
    by (simp add: compositeCallback_def in_operator_def hasOwnProperty_def)
  have nested: "compositeCallback \<Phi> v (VArr q rules) = Inr False"
    by (simp add: compositeCallback_def array_in_operator)
  have rest: "typeof other \<notin> {''string'', ''function'', ''object''} \<or> other = VNull \<longrightarrow>
        compositeCallback \<Phi> v other = Inr False"
    by (auto simp: compositeCallback_def)
  have ex: "validateCompositeValidator \<Phi> x (VArr r [VStr ''number'', VFun n l nm pr]) =
      (if typeof x = ''number'' then \<Phi> n x else Inr False)" for x
    by (auto simp: validateCompositeValidator_def validatorArray_def compositeCallback_def
        applyDefaultValidator_def call_function_def split: sum.splits)
  have ex5: "\<Phi> n (VNum 5) = Inr True
      \<longrightarrow> validateCompositeValidator \<Phi> (VNum 5) (VArr r [VStr ''number'', VFun n l nm pr]) = Inr True"
    by (simp add: ex)
  have exm5: "\<Phi> n (VNum (- 5)) = Inr False
      \<longrightarrow> validateCompositeValidator \<Phi> (VNum (- 5)) (VArr r [VStr ''number'', VFun n l nm pr])
            = Inr False"
    by (simp add: ex)
  have exs: "validateCompositeValidator \<Phi> (VStr ''5'') (VArr r [VStr ''number'', VFun n l nm pr])
      = Inr False"
    by (simp add: ex)
  from all total list single tag pred enum arr plain nested rest ex5 exm5 exs
  show ?thesis by blast
qed

theorem composite_all_rules_pass_witness:
  "validateCompositeValidator isPositive_env (VNum 5)
      (VArr 1 [VStr ''number'', VFun 0 1 ''isPositive'' None]) = Inr True
   \<and> validateCompositeValidator isPositive_env (VNum (- 5))
      (VArr 1 [VStr ''number'', VFun 0 1 ''isPositive'' None]) = Inr False
   \<and> validateCompositeValidator isPositive_env (VStr ''5'')
      (VArr 1 [VStr ''number'', VFun 0 1 ''isPositive'' None]) = Inr False
   \<and> validateCompositeValidator isPositive_env (VNum 5) (VStr ''number'') = Inr True
   \<and> validateCompositeValidator isPositive_env (VNum 1)
      (VArr 1 [VObj 2 [(''enum'', VObj 3 [(''A'', VNum 1)])]]) = Inr True
   \<and> validateCompositeValidator isPositive_env (VArr 4 [VStr ''a''])
      (VArr 1 [VObj 2 [(''itemType'', VStr ''string'')]]) = Inr True
   \<and> validateCompositeValidator isPositive_env (VNum 1) (VArr 1 [VObj 2 []]) = Inr False"
proof -
  have e: "validateEnum (VNum 1) (VObj 3 [(''A'', VNum 1)]) = Inr True"
    by (simp add: validateEnum_def object_values_def array_includes_def sameValueZero_def)
  have a: "validateArray isPositive_env (VArr 4 [VStr ''a'']) (VStr ''string'') = Inr True"
    by (simp add: validateArray_def applyDefaultValidator_def)
  show ?thesis
    using e a
      composite_all_rules_pass [where \<Phi> = isPositive_env and v = "VNum 5"
        and validators = "VStr ''number''" and r = 1 and n = 0 and l = 1
        and nm = "''isPositive''" and pr = None and rules = "[]" and tag = "VStr ''number''"
        and ps = "[]" and enumType = VNull and itemType = VNull and q = 2 and other = VNull]
      composite_all_rules_pass [where \<Phi> = isPositive_env and v = "VNum 1"
        and validators = "VArr 1 [VObj 2 [(''enum'', VObj 3 [(''A'', VNum 1)])]]" and r = 1
        and n = 0 and l = 1 and nm = "''isPositive''" and pr = None and rules = "[]"
        and tag = "VStr ''number''" and ps = "[(''enum'', VObj 3 [(''A'', VNum 1)])]"
        and enumType = "VObj 3 [(''A'', VNum 1)]" and itemType = VNull and q = 2 and other = VNull]
      composite_all_rules_pass [where \<Phi> = isPositive_env and v = "VArr 4 [VStr ''a'']"
        and validators = "VArr 1 [VObj 2 [(''itemType'', VStr ''string'')]]" and r = 1
        and n = 0 and l = 1 and nm = "''isPositive''" and pr = None and rules = "[]"
        and tag = "VStr ''number''" and ps = "[(''itemType'', VStr ''string'')]"
        and enumType = VNull and itemType = "VStr ''string''" and q = 2 and other = VNull]
      composite_all_rules_pass [where \<Phi> = isPositive_env and v = "VNum 1"
        and validators = "VArr 1 [VObj 2 []]" and r = 1
        and n = 0 and l = 1 and nm = "''isPositive''" and pr = None and rules = "[]"
        and tag = "VStr ''number''" and ps = "[]"
        and enumType = VNull and itemType = VNull and q = 2 and other = VNull]
    by (auto simp: isPositive_env_def applyDefaultValidator_def validatorArray_def)
qed

section \<open>A list rule against an object value\<close>

text \<open>
  Claim C5 says that a rule given as a list is handed to the composite checker
  whatever the shape of the value. The dispatcher tests for a nested schema before it
  tests for a list, and a list is itself of type \<open>object\<close>: when the value is an array
  or another non-null object the dispatcher recurses, taking the list as a schema with
  the keys \<open>0\<close>, \<open>1\<close>, ..., and stores a nested result. For the schema
  \<open>{tags: [{itemType: "string"}]}\<close> and the input \<open>{tags: ["a", "b"]}\<close> the result is
  \<open>{tags: {0: false}}\<close>, while the composite checker answers \<open>true\<close> on the same value
  and rule.
\<close>

theorem list_rule_with_object_value_recurses:
  "validateKey \<Phi> (VObj q [(key, VArr a items)]) key (VArr r rules) =
     validateHelper \<Phi> (VArr a items) (VArr r rules)
   \<and> validateKey \<Phi> (VObj q [(key, VObj a props)]) key (VArr r rules) =
     validateHelper \<Phi> (VObj a props) (VArr r rules)
   \<and> validate \<Phi> (new_Validator (VObj 1 [(''tags'', VArr 2 [VObj 3 [(''itemType'', VStr ''string'')]])]))
      (VObj 4 [(''tags'', VArr 5 [VStr ''a'', VStr ''b''])])
     = Inr (RTree None [(''tags'', RTree None [(''0'', RBool False)])])
   \<and> validateCompositeValidator \<Phi> (VArr 5 [VStr ''a'', VStr ''b''])
        (VArr 2 [VObj 3 [(''itemType'', VStr ''string'')]]) = Inr True"
proof -
  have 1: "validateKey \<Phi> (VObj q [(key, v)]) key (VArr r rules) =
     validateHelper \<Phi> v (VArr r rules)" if "typeof v = ''object''" "v \<noteq> VNull" for v
  proof -
    have "hasOwnProperty (VObj q [(key, v)]) key" "get_prop (VObj q [(key, v)]) key = Inr v"
      by (simp_all add: hasOwnProperty_def get_prop_def)
    with that show ?thesis
      by (simp add: validateKey.simps array_in_operator)
  qed
  have 2: "validate \<Phi> (new_Validator (VObj 1 [(''tags'', VArr 2 [VObj 3 [(''itemType'', VStr ''string'')]])]))
      (VObj 4 [(''tags'', VArr 5 [VStr ''a'', VStr ''b''])])
     = Inr (RTree None [(''tags'', RTree None [(''0'', RBool False)])])"
    by code_simp
  have 3: "validateCompositeValidator \<Phi> (VArr 5 [VStr ''a'', VStr ''b''])
        (VArr 2 [VObj 3 [(''itemType'', VStr ''string'')]]) = Inr True"
    by code_simp
  from 1 [of "VArr a items"] 1 [of "VObj a props"] 2 3 show ?thesis by simp
qed

section \<open>A nested schema whose key is missing\<close>




section \<open>The enum checker\<close>

text \<open>
  Claim C7 says that the enum checker answers \<open>true\<close> exactly for the members of the
  enum under strict equality. The checker uses \<open>includes\<close>, which finds \<open>NaN\<close> among
  the values although \<open>NaN === NaN\<close> is false.
\<close>

theorem enum_nan_counterexample:
  "validateEnum VNaN (VObj 1 [(''A'', VNaN)]) = Inr True \<and> \<not> strict_equals VNaN VNaN"
  by (simp add: validateEnum_def object_values_def array_includes_def sameValueZero_def
      strict_equals_def)

text \<open>
  Claim C7, amended. The enum checker returns \<open>true\<close> if and only if the value is a
  member of the enum's values under the comparison of \<open>includes\<close>, which is strict
  equality except that \<open>NaN\<close> matches \<open>NaN\<close>. Nothing is coerced (equal operands have
  the same type tag) and the order of the enum's members is irrelevant. For the enum
  \<open>{A: "a", B: "b"}\<close> the value \<open>"a"\<close> gives \<open>true\<close>, and \<open>"c"\<close> and \<open>0\<close> give \<open>false\<close>.
\<close>

theorem enum_membership:
  "validateEnum v (VObj r ps) = Inr (\<exists>x \<in> set (map snd ps). sameValueZero x v)
   \<and> (sameValueZero x v \<longleftrightarrow> strict_equals x v \<or> (x = VNaN \<and> v = VNaN))
   \<and> (sameValueZero x v \<longrightarrow> typeof x = typeof v)
   \<and> (set (map snd ps) = set (map snd qs)
        \<longrightarrow> validateEnum v (VObj r ps) = validateEnum v (VObj q qs))
   \<and> validateEnum (VStr ''a'') (VObj r [(''A'', VStr ''a''), (''B'', VStr ''b'')]) = Inr True
   \<and> validateEnum (VStr ''c'') (VObj r [(''A'', VStr ''a''), (''B'', VStr ''b'')]) = Inr False
   \<and> validateEnum (VNum 0) (VObj r [(''A'', VStr ''a''), (''B'', VStr ''b'')]) = Inr False"
proof -
  have m: "validateEnum v (VObj r ps) = Inr (\<exists>x \<in> set (map snd ps). sameValueZero x v)" for v r ps
    by (simp add: validateEnum_def object_values_def array_includes_def)
  show ?thesis
    unfolding m using sameValueZero_strict [of x v] sameValueZero_typeof [of x v]
    by (auto simp: sameValueZero_def)
qed

theorem enum_membership_witness:
  "validateEnum (VNum 2) (VObj 1 [(''A'', VNum 1), (''B'', VNum 2)]) = Inr True
   \<and> validateEnum (VNum 2) (VObj 1 [(''A'', VNum 1), (''B'', VNum 2)])
       = validateEnum (VNum 2) (VObj 2 [(''B'', VNum 2), (''A'', VNum 1), (''C'', VNum 2)])"
  using enum_membership [where v = "VNum 2" and r = 1 and ps = "[(''A'', VNum 1), (''B'', VNum 2)]"
      and x = "VNum 2" and q = 2 and qs = "[(''B'', VNum 2), (''A'', VNum 1), (''C'', VNum 2)]"]
  by (auto simp: sameValueZero_def)

section \<open>The array checker\<close>

text \<open>
  Claim C8. The array checker returns \<open>false\<close> for every value that is not an array,
  whatever the item rule. For an array and an item rule of one of the three supported
  kinds it returns \<open>true\<close> if and only if every element passes the rule on its own:
  a type tag checks each element's type, an enum descriptor checks each element
  against the enum, a predicate is called on each element. The empty array passes
  for every item rule that is a string or an object.
\<close>

theorem array_checker_every_item:
  "(\<not> isArray v \<longrightarrow> validateArray \<Phi> v itemType = Inr False)
   \<and> (typeof tag = ''string'' \<longrightarrow>
        validateArray \<Phi> (VArr r items) tag =
          Inr (\<forall>item \<in> set items. applyDefaultValidator tag item))
   \<and> (map_of ps ''enum'' = Some enumType \<longrightarrow>
        (validateArray \<Phi> (VArr r items) (VObj q ps) = Inr True
           \<longleftrightarrow> (\<forall>item \<in> set items. validateEnum item enumType = Inr True)))
   \<and> (validateArray \<Phi> (VArr r items) (VFun n l nm pr) = Inr True
         \<longleftrightarrow> (\<forall>item \<in> set items. \<Phi> n item = Inr True))
   \<and> (typeof itemType = ''string'' \<or> instanceofObject itemType \<longrightarrow>
        validateArray \<Phi> (VArr r []) itemType = Inr True)"
proof -
  have 1: "\<not> isArray v \<longrightarrow> validateArray \<Phi> v itemType = Inr False"
    by (cases v) (simp_all add: validateArray_def)
  have 2: "typeof tag = ''string'' \<longrightarrow>
        validateArray \<Phi> (VArr r items) tag =
          Inr (\<forall>item \<in> set items. applyDefaultValidator tag item)"
    by (simp add: validateArray_def every_pure)
  have 3: "map_of ps ''enum'' = Some enumType \<longrightarrow>
        (validateArray \<Phi> (VArr r items) (VObj q ps) = Inr True
           \<longleftrightarrow> (\<forall>item \<in> set items. validateEnum item enumType = Inr True))"
    by (simp add: validateArray_def in_operator_def hasOwnProperty_def get_prop_def
        every_true_iff)
  have 4: "validateArray \<Phi> (VArr r items) (VFun n l nm pr) = Inr True
         \<longleftrightarrow> (\<forall>item \<in> set items. \<Phi> n item = Inr True)"
    by (simp add: validateArray_def function_in_operator call_function_def every_true_iff)
  have 5: "typeof itemType = ''string'' \<or> instanceofObject itemType \<longrightarrow>
        validateArray \<Phi> (VArr r []) itemType = Inr True"
    by (auto simp: validateArray_def in_operator_def)
  from 1 2 3 4 5 show ?thesis by blast
qed

theorem array_checker_every_item_witness:
  "validateArray isPositive_env (VArr 1 []) (VStr ''string'') = Inr True
   \<and> validateArray isPositive_env (VArr 1 [VStr ''a'', VNum 2]) (VStr ''string'') = Inr False
   \<and> validateArray isPositive_env (VStr ''not an array'') (VStr ''string'') = Inr False
   \<and> validateArray isPositive_env (VArr 1 [VStr ''a'', VStr ''b''])
        (VObj 2 [(''enum'', VObj 3 [(''A'', VStr ''a''), (''B'', VStr ''b'')])]) = Inr True
   \<and> validateArray isPositive_env (VArr 1 [VNum 3, VNum 4]) (VFun 0 1 ''isPositive'' None) = Inr True"
proof -
  have e: "\<forall>item \<in> set [VStr ''a'', VStr ''b''].
      validateEnum item (VObj 3 [(''A'', VStr ''a''), (''B'', VStr ''b'')]) = Inr True"
    by (simp add: validateEnum_def object_values_def array_includes_def sameValueZero_def)
  have p: "\<forall>item \<in> set [VNum 3, VNum 4]. isPositive_env 0 item = Inr True"
    by (simp add: isPositive_env_def)
  have m: "map_of [(''enum'', VObj 3 [(''A'', VStr ''a''), (''B'', VStr ''b'')])] ''enum''
      = Some (VObj 3 [(''A'', VStr ''a''), (''B'', VStr ''b'')])"
    by simp
  show ?thesis
    using e p m
      array_checker_every_item [where \<Phi> = isPositive_env and v = "VStr ''not an array''"
        and itemType = "VStr ''string''" and tag = "VStr ''string''" and r = 1
        and items = "[]" and n = 0 and l = 1 and nm = "''isPositive''" and pr = None
        and q = 2 and ps = "[]" and enumType = VNull]
      array_checker_every_item [where \<Phi> = isPositive_env and v = "VStr ''not an array''"
        and itemType = "VStr ''string''" and tag = "VStr ''string''" and r = 1
        and items = "[VStr ''a'', VNum 2]" and n = 0 and l = 1 and nm = "''isPositive''"
        and pr = None and q = 2 and ps = "[]" and enumType = VNull]
      array_checker_every_item [where \<Phi> = isPositive_env and v = "VStr ''not an array''"
        and itemType = "VStr ''string''" and tag = "VStr ''string''" and r = 1
        and items = "[VStr ''a'', VStr ''b'']" and n = 0 and l = 1 and nm = "''isPositive''"
        and pr = None and q = 2
        and ps = "[(''enum'', VObj 3 [(''A'', VStr ''a''), (''B'', VStr ''b'')])]"
        and enumType = "VObj 3 [(''A'', VStr ''a''), (''B'', VStr ''b'')]"]
      array_checker_every_item [where \<Phi> = isPositive_env and v = "VStr ''not an array''"
        and itemType = "VStr ''string''" and tag = "VStr ''string''" and r = 1
        and items = "[VNum 3, VNum 4]" and n = 0 and l = 1 and nm = "''isPositive''"
        and pr = None and q = 2 and ps = "[]" and enumType = VNull]
    by (simp add: applyDefaultValidator_def)
qed

section \<open>The shape of the result\<close>

text \<open>
  Claim C9 says that the result has exactly the schema's key set and that under every
  nested-schema key it holds a result tree with the nested schema's keys. For the
  schema \<open>{user: {name: "string"}}\<close> and the input \<open>{user: "Bob"}\<close> the result is
  \<open>{user: false}\<close>; and for a schema with the own key \<open>__proto__\<close> the result has no such
  key.
\<close>

theorem nested_key_boolean_counterexample:
  "validate throwing_env (new_Validator (VObj 1 [(''user'', VObj 2 [(''name'', VStr ''string'')])]))
     (VObj 3 [(''user'', VStr ''Bob'')]) = Inr (RTree None [(''user'', RBool False)])
   \<and> validate throwing_env (new_Validator (VObj 1 [(''__proto__'', VStr ''string'')])) (VObj 3 [])
     = Inr (RTree None [])"
  by code_simp

text \<open>
  Claim C9, amended. For all schemas and inputs, a result that \<open>validate\<close> returns is
  a tree whose keys are exactly the keys of the schema other than \<open>__proto__\<close>, so keys
  that only the input has contribute nothing. Under a nested-schema key other than
  \<open>__proto__\<close> the result holds a tree with the keys of the nested schema other than
  \<open>__proto__\<close> when the input's value under that key is a non-null object, and
  \<open>false\<close> when the key is absent or its value is anything else.
\<close>

theorem result_shape:
  "(validate \<Phi> V input = Inr res \<longrightarrow>
      (\<exists>p t. res = RTree p t
         \<and> set (map fst t) = set (map fst (enumerable_props (schema V))) - {''__proto__''}))
   \<and> (validateHelper \<Phi> input S = Inr (RTree p t) \<and> distinct (map fst (enumerable_props S))
        \<and> (key, VObj r ps) \<in> set (enumerable_props S) \<and> key \<noteq> ''__proto__''
        \<and> map_of ps ''enum'' = None \<and> map_of ps ''itemType'' = None \<longrightarrow>
        (case map_of (own_props input) key of
           Some v \<Rightarrow>
             if typeof v = ''object'' \<and> v \<noteq> VNull
             then \<exists>p' t'. map_of t key = Some (RTree p' t')
                    \<and> set (map fst t') = set (map fst ps) - {''__proto__''}
             else map_of t key = Some (RBool False)
         | None \<Rightarrow> map_of t key = Some (RBool False)))"
proof -
  have shape: "validate \<Phi> V input = Inr res \<longrightarrow>
      (\<exists>p t. res = RTree p t
         \<and> set (map fst t) = set (map fst (enumerable_props (schema V))) - {''__proto__''})"
    using validateHelper_keys [of \<Phi> input "schema V" res] by (simp add: validate_def)
  have nested: "(case map_of (own_props input) key of
           Some v \<Rightarrow>
             if typeof v = ''object'' \<and> v \<noteq> VNull
             then \<exists>p' t'. map_of t key = Some (RTree p' t')
                    \<and> set (map fst t') = set (map fst ps) - {''__proto__''}
             else map_of t key = Some (RBool False)
         | None \<Rightarrow> map_of t key = Some (RBool False))"
    if h: "validateHelper \<Phi> input S = Inr (RTree p t)"
      and d: "distinct (map fst (enumerable_props S))"
      and m: "(key, VObj r ps) \<in> set (enumerable_props S)"
      and n: "key \<noteq> ''__proto__''"
      and e: "map_of ps ''enum'' = None" "map_of ps ''itemType'' = None"
  proof -
    from validateHelper_lookup [OF h d m n] obtain x
      where x: "validateKey \<Phi> input key (VObj r ps) = Inr x" "map_of t key = Some x"
      by blast
    from x(1) have defined: "input \<noteq> VUndefined" "input \<noteq> VNull"
      by (auto simp: validateKey.simps get_prop_def)
    show ?thesis
    proof (cases "map_of (own_props input) key")
      case None
      then have "\<not> hasOwnProperty input key" by (simp add: hasOwnProperty_def)
      from validateKey_missing [OF _ _ defined this, of "VObj r ps" \<Phi>] x None
      show ?thesis by simp
    next
      case (Some v)
      show ?thesis
      proof (cases "typeof v = ''object'' \<and> v \<noteq> VNull")
        case True
        with validateKey_nested [OF Some e, of \<Phi> r] x(1)
        have "validateHelper \<Phi> v (VObj r ps) = Inr x" by simp
        from validateHelper_keys [OF this] x(2) Some True show ?thesis by auto
      next
        case False
        with validateKey_nested [OF Some e, of \<Phi> r] x Some show ?thesis by auto
      qed
    qed
  qed
  from shape nested show ?thesis by blast
qed

theorem result_shape_witness:
  "validate throwing_env (new_Validator (VObj 1 [(''user'', VObj 2 [(''name'', VStr ''string'')])]))
     (VObj 3 [(''user'', VObj 4 [(''name'', VStr ''Bob'')]), (''extra'', VNum 1)])
     = Inr (RTree None [(''user'', RTree None [(''name'', RBool True)])])
   \<and> (\<exists>p' t'. map_of [(''user'', RTree None [(''name'', RBool True)])] ''user'' = Some (RTree p' t')
          \<and> set (map fst t') = set (map fst [(''name'', VStr ''string'')]) - {''__proto__''})"
proof -
  let ?S = "VObj 1 [(''user'', VObj 2 [(''name'', VStr ''string'')])]"
  let ?I = "VObj 3 [(''user'', VObj 4 [(''name'', VStr ''Bob'')]), (''extra'', VNum 1)]"
  have v: "validate throwing_env (new_Validator ?S) ?I
      = Inr (RTree None [(''user'', RTree None [(''name'', RBool True)])])"
    by code_simp
  then have h: "validateHelper throwing_env ?I ?S
      = Inr (RTree None [(''user'', RTree None [(''name'', RBool True)])])"
    by (simp add: validate_def new_Validator_def)
  have d: "distinct (map fst (enumerable_props ?S))" by simp
  have m: "(''user'', VObj 2 [(''name'', VStr ''string'')]) \<in> set (enumerable_props ?S)" by simp
  from result_shape [where \<Phi> = throwing_env and input = ?I and S = ?S and key = "''user''"
      and r = 2 and ps = "[(''name'', VStr ''string'')]" and p = None
      and t = "[(''user'', RTree None [(''name'', RBool True)])]"
      and V = "new_Validator ?S"
      and res = "RTree None [(''user'', RTree None [(''name'', RBool True)])]"]
    v h d m
  show ?thesis by simp
qed

section \<open>An item rule that is an object without an enum\<close>

text \<open>
  Claim C10. Let the rule of a key be an array descriptor whose \<open>itemType\<close> is a
  non-null object without an \<open>enum\<close> property, and let the input hold a non-empty
  array under the key. Then the body of the loop throws a \<open>TypeError\<close>, since the
  array checker calls the \<open>itemType\<close> as a function on the first element; the loop
  throws it on reaching the key, \<open>validate\<close> with that one-key schema throws it, and
  \<open>validate\<close> does not return for any schema that has the key with that rule.
\<close>

theorem object_item_rule_throws:
  "map_of (own_props input) key = Some (VArr a (x # xs)) \<Longrightarrow>
   map_of ps ''enum'' = None \<Longrightarrow> map_of ps ''itemType'' = Some itemType \<Longrightarrow>
   typeof itemType = ''object'' \<Longrightarrow> itemType \<noteq> VNull \<Longrightarrow> \<not> hasOwnProperty itemType ''enum'' \<Longrightarrow>
   validateKey \<Phi> input key (VObj r ps) = Inl TypeError
   \<and> forIn (validateKey \<Phi> input) ((key, VObj r ps) # rest) res = Inl TypeError
   \<and> validate \<Phi> (new_Validator (VObj s [(key, VObj r ps)])) input = Inl TypeError
   \<and> ((key, VObj r ps) \<in> set (enumerable_props S) \<longrightarrow> (\<exists>e. validateHelper \<Phi> input S = Inl e))"
proof -
  assume v: "map_of (own_props input) key = Some (VArr a (x # xs))"
    and e: "map_of ps ''enum'' = None" and i: "map_of ps ''itemType'' = Some itemType"
    and t: "typeof itemType = ''object''" "itemType \<noteq> VNull"
    and n: "\<not> hasOwnProperty itemType ''enum''"
  from t have o: "instanceofObject itemType"
    by (cases itemType) simp_all
  from t have c: "call_function \<Phi> itemType x = Inl TypeError"
    by (cases itemType) (simp_all add: call_function_def)
  from t n o c have arr: "validateArray \<Phi> (VArr a (x # xs)) itemType = Inl TypeError"
    by (simp add: validateArray_def in_operator_def)
  from v e i arr own_props_Some_defined [OF v]
  have k: "validateKey \<Phi> input key (VObj r ps) = Inl TypeError"
    by (simp add: validateKey.simps get_prop_def hasOwnProperty_def in_operator_def
        boolean_result_def)
  then have l: "forIn (validateKey \<Phi> input) ((key, VObj r ps) # rest) res = Inl TypeError"
    for rest res
    by simp
  from l have w: "validate \<Phi> (new_Validator (VObj s [(key, VObj r ps)])) input = Inl TypeError"
    by (simp add: validate_def new_Validator_def validateHelper_loop tree_result_def)
  have "\<exists>e. validateHelper \<Phi> input S = Inl e" if "(key, VObj r ps) \<in> set (enumerable_props S)"
    using forIn_throws [OF that, of "validateKey \<Phi> input" TypeError "(None, [])"] k
    by (auto simp: validateHelper_loop tree_result_def)
  with k l w show ?thesis by blast
qed

theorem object_item_rule_throws_witness:
  "validate throwing_env
     (new_Validator (VObj 1 [(''m'', VObj 2 [(''itemType'', VObj 3 [(''itemType'', VStr ''string'')])])]))
     (VObj 4 [(''m'', VArr 5 [VArr 6 [VStr ''a'']])]) = Inl TypeError"
  using object_item_rule_throws [where input = "VObj 4 [(''m'', VArr 5 [VArr 6 [VStr ''a'']])]"
      and key = "''m''" and a = 5 and x = "VArr 6 [VStr ''a'']" and xs = "[]"
      and ps = "[(''itemType'', VObj 3 [(''itemType'', VStr ''string'')])]"
      and itemType = "VObj 3 [(''itemType'', VStr ''string'')]" and \<Phi> = throwing_env
      and r = 2 and s = 1 and S = VNull and rest = "[]" and res = "(None, [])"]
  by (simp add: hasOwnProperty_def)

end
